theory Spec2Isabelle
  imports Complex_Main
begin

section \<open>JavaScript values and built-ins used by the front end\<close>

text \<open>
  The front end is three classes (\<open>ApiService\<close>, \<open>UIController\<close>, \<open>ThemeSwitcher\<close>) and the
  \<open>App\<close> that connects them. The model keeps their names. JavaScript strings are lists of
  characters; a \<^typ>\<open>char\<close> stands for a code unit below 256 (ASCII and the Latin-1 block).
  JavaScript numbers are exact rationals with a separate \<open>NaN\<close>: binary rounding of
  the IEEE doubles is not part of the model.
\<close>

datatype jsnum = NaN | Num rat

datatype js_value = Str string | Number jsnum

text \<open>\<open>new Error(message)\<close>: the only field the code reads is \<open>message\<close>.\<close>

datatype js_error = Error string

fun message :: "js_error \<Rightarrow> string" where
  "message (Error m) = m"

text \<open>White space as \<open>String.prototype.trim\<close> and \<open>parseInt\<close> see it, below code unit 256:
  TAB, LF, VT, FF, CR, SPACE and NBSP.\<close>

definition is_white_space :: "char \<Rightarrow> bool" where
  "is_white_space c = ((of_char c :: nat) \<in> {9, 10, 11, 12, 13, 32, 160})"

definition trim :: "string \<Rightarrow> string" where
  "trim s = rev (dropWhile is_white_space (rev (dropWhile is_white_space s)))"

text \<open>\<open>String.prototype.toLowerCase\<close>: A-Z and the Latin-1 capitals (all of
  0xC0-0xDE but the multiplication sign 0xD7) move up by 32, every other character stays.\<close>

definition lower_char :: "char \<Rightarrow> char" where
  "lower_char c =
     (let n = (of_char c :: nat)
      in if (65 \<le> n \<and> n \<le> 90) \<or> (192 \<le> n \<and> n \<le> 222 \<and> n \<noteq> 215)
         then char_of (n + 32) else c)"

definition toLowerCase :: "string \<Rightarrow> string" where
  "toLowerCase s = map lower_char s"

text \<open>\<open>s.lastIndexOf(c)\<close> for a one-character search string: the last position of \<open>c\<close>,
  or \<open>-1\<close> when \<open>c\<close> does not occur.\<close>

fun lastIndexOf :: "string \<Rightarrow> char \<Rightarrow> int" where
  "lastIndexOf [] c = -1"
| "lastIndexOf (x # xs) c =
     (let r = lastIndexOf xs c
      in if 0 \<le> r then r + 1 else if x = c then 0 else -1)"

text \<open>\<open>s.substring(start)\<close>: a start below 0 counts as 0, one beyond the length as the
  length.\<close>

definition substring :: "string \<Rightarrow> int \<Rightarrow> string" where
  "substring s start = drop (nat (max 0 (min start (int (length s))))) s"

text \<open>Number-to-string conversion of a non-negative integer (template literals,
  \<open>toFixed\<close>): its decimal digits.\<close>

definition digit_char :: "nat \<Rightarrow> char" where
  "digit_char d = char_of (48 + d)"

fun string_of_nat :: "nat \<Rightarrow> string" where
  "string_of_nat n =
     (if n < 10 then [digit_char n] else string_of_nat (n div 10) @ [digit_char (n mod 10)])"

declare string_of_nat.simps [simp del]

text \<open>\<open>parseInt(string)\<close> with no radix: leading white space is dropped, then an
  optional sign, then the prefix \<open>0x\<close>/\<open>0X\<close> selects radix 16; the longest prefix of digits
  is read and everything after it ignored. No digit at all gives \<open>NaN\<close>.\<close>

definition is_digit :: "char \<Rightarrow> bool" where
  "is_digit c = (48 \<le> (of_char c :: nat) \<and> (of_char c :: nat) \<le> 57)"

definition is_hex_digit :: "char \<Rightarrow> bool" where
  "is_hex_digit c =
     (let n = (of_char c :: nat)
      in (48 \<le> n \<and> n \<le> 57) \<or> (65 \<le> n \<and> n \<le> 70) \<or> (97 \<le> n \<and> n \<le> 102))"

definition digit_value :: "char \<Rightarrow> nat" where
  "digit_value c =
     (let n = (of_char c :: nat)
      in if n \<le> 57 then n - 48 else if n \<le> 70 then n - 55 else n - 87)"

definition digits_value :: "nat \<Rightarrow> string \<Rightarrow> nat" where
  "digits_value radix z = foldl (\<lambda>acc c. acc * radix + digit_value c) 0 z"

definition parseInt :: "string \<Rightarrow> jsnum" where
  "parseInt str =
     (let s1 = dropWhile is_white_space str;
          (sign, s2) = (case s1 of
                          [] \<Rightarrow> (1, s1)
                        | c # cs \<Rightarrow> if c = CHR ''-'' then (- 1, cs)
                                    else if c = CHR ''+'' then (1, cs) else (1, s1));
          hex = (take 2 s2 = ''0x'' \<or> take 2 s2 = ''0X'');
          s3 = (if hex then drop 2 s2 else s2);
          z = takeWhile (if hex then is_hex_digit else is_digit) s3
      in if z = [] then NaN
         else Num (sign * of_nat (digits_value (if hex then 16 else 10) z)))"

text \<open>Division of a number by a non-zero literal: \<open>NaN / d\<close> is \<open>NaN\<close>.\<close>

fun js_div :: "jsnum \<Rightarrow> rat \<Rightarrow> jsnum" where
  "js_div NaN d = NaN"
| "js_div (Num a) d = Num (a / d)"

text \<open>\<open>x.toFixed(f)\<close>: the sign, then the integer \<open>n\<close> nearest to \<open>|x| * 10^f\<close> (the
  larger one of two equally near), written with \<open>f\<close> digits after the point. (Beyond
  \<open>10^21\<close> JavaScript switches to exponent notation; word counts, ratios and seconds are
  far below.)\<close>

definition toFixed :: "rat \<Rightarrow> nat \<Rightarrow> string" where
  "toFixed x f =
     (let n = nat \<lfloor>\<bar>x\<bar> * 10 ^ f + 1 / 2\<rfloor>;
          ds = string_of_nat (n mod 10 ^ f);
          frac = replicate (f - length ds) (CHR ''0'') @ ds
      in (if x < 0 then ''-'' else '''') @ string_of_nat (n div 10 ^ f)
         @ (if f = 0 then '''' else ''.'' @ frac))"

section \<open>ApiService\<close>

text \<open>A \<open>File\<close> as the code reads it: \<open>file.name\<close> and \<open>file.size\<close> (bytes).\<close>

record js_file =
  name :: string
  fsize :: nat

text \<open>What \<open>fetch\<close> is called with. A JSON body is the object literal given to
  \<open>JSON.stringify\<close>, a form body the entries appended to the \<open>FormData\<close>, in order (an
  entry is recorded as given to \<open>append\<close>, before its conversion to a string).\<close>

datatype form_value = FileValue js_file | Plain js_value

datatype request_body = JsonBody "(string \<times> js_value) list" | FormBody "(string \<times> form_value) list"

record request =
  url :: string
  http_method :: string
  headers :: "(string \<times> string) list"
  body :: request_body

text \<open>The result record the client consumes: \<open>result.summary\<close>, \<open>result.original_length\<close>,
  \<open>result.summary_length\<close> (word counts), \<open>result.compression_ratio\<close> and
  \<open>result.processing_time\<close>.\<close>

record summary_result =
  summary :: string
  original_length :: nat
  summary_length :: nat
  compression_ratio :: rat
  processing_time :: rat

text \<open>What a call of \<open>fetch\<close> comes to: the promise rejects (no connection; the argument
  is the error's message), or a response arrives with its status and a body that
  \<open>response.json()\<close> either rejects (\<open>Inl\<close>, the message) or parses (\<open>Inr\<close>).
  \<open>response.ok\<close> is the browser's test of the status.\<close>

datatype fetch_outcome = NetworkFailure string | Response nat "string + summary_result"

type_synonym server = "request \<Rightarrow> fetch_outcome"

definition response_ok :: "nat \<Rightarrow> bool" where
  "response_ok status = (200 \<le> status \<and> status \<le> 299)"

definition baseUrl :: string where
  "baseUrl = ''http://localhost:8000''"

text \<open>An optional parameter with a default value: \<open>None\<close> is an argument left out (or
  \<open>undefined\<close>), for which JavaScript takes the default.\<close>

definition default_param :: "'a \<Rightarrow> 'a option \<Rightarrow> 'a" where
  "default_param d arg = (case arg of None \<Rightarrow> d | Some v \<Rightarrow> v)"

text \<open>The request \<open>summarizeText(text, modelType = 'ensemble', ratio = 0.3, language =
  'english')\<close> hands to \<open>fetch\<close>.\<close>

definition summarizeText_request ::
  "string \<Rightarrow> string option \<Rightarrow> jsnum option \<Rightarrow> string option \<Rightarrow> request" where
  "summarizeText_request txt modelType ratio language =
     \<lparr>url = baseUrl @ ''/summarize'',
      http_method = ''POST'',
      headers = [(''Content-Type'', ''application/json'')],
      body = JsonBody
        [(''text'', Str txt),
         (''model_type'', Str (default_param ''ensemble'' modelType)),
         (''ratio'', Number (default_param (Num (3 / 10)) ratio)),
         (''language'', Str (default_param ''english'' language))]\<rparr>"

text \<open>The request of \<open>summarizeFile(file, modelType = 'ensemble', ratio = 0.3, language =
  'english')\<close>; no header is set.\<close>

definition summarizeFile_request ::
  "js_file \<Rightarrow> string option \<Rightarrow> jsnum option \<Rightarrow> string option \<Rightarrow> request" where
  "summarizeFile_request file modelType ratio language =
     \<lparr>url = baseUrl @ ''/summarize/file'',
      http_method = ''POST'',
      headers = [],
      body = FormBody
        [(''file'', FileValue file),
         (''model_type'', Plain (Str (default_param ''ensemble'' modelType))),
         (''ratio'', Plain (Number (default_param (Num (3 / 10)) ratio))),
         (''language'', Plain (Str (default_param ''english'' language)))]\<rparr>"

text \<open>The body both methods share after building the request: \<open>await fetch\<close>, the throw
  of \<open>new Error(`API error: ${response.status}`)\<close> when \<open>response.ok\<close> is false, and
  \<open>await response.json()\<close>. The \<open>catch\<close> logs and rethrows, so every error reaches the
  caller.\<close>

definition await_response :: "server \<Rightarrow> request \<Rightarrow> js_error + summary_result" where
  "await_response srv req =
     (case srv req of
        NetworkFailure msg \<Rightarrow> Inl (Error msg)
      | Response status json \<Rightarrow>
          if \<not> response_ok status then Inl (Error (''API error: '' @ string_of_nat status))
          else (case json of Inl msg \<Rightarrow> Inl (Error msg) | Inr r \<Rightarrow> Inr r))"

text \<open>Each method returns the request it sent together with its outcome.\<close>

definition summarizeText ::
  "server \<Rightarrow> string \<Rightarrow> string option \<Rightarrow> jsnum option \<Rightarrow> string option
   \<Rightarrow> request \<times> (js_error + summary_result)" where
  "summarizeText srv txt modelType ratio language =
     (let req = summarizeText_request txt modelType ratio language
      in (req, await_response srv req))"

definition summarizeFile ::
  "server \<Rightarrow> js_file \<Rightarrow> string option \<Rightarrow> jsnum option \<Rightarrow> string option
   \<Rightarrow> request \<times> (js_error + summary_result)" where
  "summarizeFile srv file modelType ratio language =
     (let req = summarizeFile_request file modelType ratio language
      in (req, await_response srv req))"

text \<open>Reading a request: the value sent under a key, the keys in order, and the file of a
  form.\<close>

definition field :: "string \<Rightarrow> request \<Rightarrow> js_value option" where
  "field k req =
     (case body req of
        JsonBody kvs \<Rightarrow> map_of kvs k
      | FormBody kvs \<Rightarrow>
          (case map_of kvs k of
             Some (Plain v) \<Rightarrow> Some v
           | Some (FileValue f) \<Rightarrow> None
           | None \<Rightarrow> None))"

definition field_names :: "request \<Rightarrow> string list" where
  "field_names req =
     (case body req of JsonBody kvs \<Rightarrow> map fst kvs | FormBody kvs \<Rightarrow> map fst kvs)"

definition form_file :: "request \<Rightarrow> js_file option" where
  "form_file req =
     (case body req of
        JsonBody kvs \<Rightarrow> None
      | FormBody kvs \<Rightarrow>
          (case map_of kvs ''file'' of
             Some (FileValue f) \<Rightarrow> Some f
           | Some (Plain v) \<Rightarrow> None
           | None \<Rightarrow> None))"

section \<open>UIController\<close>

text \<open>The page as \<open>UIController\<close> reads and writes it: for each element the property the
  code uses (the \<open>hidden\<close> class, the value, the text content), \<open>this.uploadedFile\<close>, and
  two logs: the messages given to \<open>alert\<close> and the requests given to \<open>fetch\<close>. A
  \<open>select\<close> is the index of its selected option; the slider is its value, a string.\<close>

record page =
  textInput_hidden :: bool
  fileInput_hidden :: bool
  inputText :: string
  uploadedFile :: "js_file option"
  fileName :: string
  fileInfo_hidden :: bool
  modelType_index :: nat
  summaryRatio :: string
  ratioValue :: string
  language_index :: nat
  loadingIndicator_hidden :: bool
  resultsSection_hidden :: bool
  resultsSection_fade_in :: bool
  summaryText :: string
  originalLength :: string
  summaryLength :: string
  compressionRatio :: string
  processingTime :: string
  alerts :: "string list"
  fetched :: "request list"

text \<open>The \<open>option\<close> values of the two \<open>select\<close> elements, in document order.\<close>

definition modelType_options :: "string list" where
  "modelType_options = [''ensemble'', ''textrank'', ''tfidf'']"

definition language_options :: "string list" where
  "language_options = [''english'', ''spanish'', ''french'', ''german'', ''italian'']"

text \<open>\<open>select.value\<close>: the value of the selected option, the empty string when no option
  is selected.\<close>

definition select_value :: "string list \<Rightarrow> nat \<Rightarrow> string" where
  "select_value opts i = (if i < length opts then opts ! i else [])"

text \<open>The page as \<open>index.html\<close> declares it and the constructor leaves it.\<close>

definition initial_page :: page where
  "initial_page =
     \<lparr>textInput_hidden = False, fileInput_hidden = True, inputText = [],
      uploadedFile = None, fileName = [], fileInfo_hidden = True,
      modelType_index = 0, summaryRatio = ''30'', ratioValue = ''30%'', language_index = 0,
      loadingIndicator_hidden = True, resultsSection_hidden = True,
      resultsSection_fade_in = False, summaryText = [], originalLength = [],
      summaryLength = [], compressionRatio = [], processingTime = [],
      alerts = [], fetched = []\<rparr>"

definition alert :: "string \<Rightarrow> page \<Rightarrow> page" where
  "alert msg p = p\<lparr>alerts := alerts p @ [msg]\<rparr>"

text \<open>\<open>switchTab(tabId)\<close>: the pane with that id is shown, the other hidden.\<close>

definition switchTab :: "string \<Rightarrow> page \<Rightarrow> page" where
  "switchTab tabId p =
     p\<lparr>textInput_hidden := (''text-input'' \<noteq> tabId),
       fileInput_hidden := (''file-input'' \<noteq> tabId)\<rparr>"

definition maxSize :: nat where
  "maxSize = 10 * 1024 * 1024"

definition validTypes :: "string list" where
  "validTypes = [''.txt'', ''.pdf'', ''.docx'', ''.html'', ''.md'']"

definition fileExt :: "string \<Rightarrow> string" where
  "fileExt nm = substring nm (lastIndexOf nm (CHR ''.''))"

definition handleFileSelection :: "js_file \<Rightarrow> page \<Rightarrow> page" where
  "handleFileSelection file p =
     (if maxSize < fsize file then alert ''File is too large. Maximum size is 10MB.'' p
      else if toLowerCase (fileExt (name file)) \<notin> set validTypes
      then alert ''Invalid file type. Please upload a TXT, PDF, DOCX, HTML, or MD file.'' p
      else p\<lparr>uploadedFile := Some file, fileName := name file, fileInfo_hidden := False\<rparr>)"

text \<open>The click handler of the remove-file button.\<close>

definition removeFile :: "page \<Rightarrow> page" where
  "removeFile p = p\<lparr>uploadedFile := None, fileInfo_hidden := True\<rparr>"

text \<open>\<open>getInputText\<close> and \<open>getUploadedFile\<close>: \<open>None\<close> is \<open>null\<close>.\<close>

definition getInputText :: "page \<Rightarrow> string option" where
  "getInputText p = (if \<not> textInput_hidden p then Some (trim (inputText p)) else None)"

definition getUploadedFile :: "page \<Rightarrow> js_file option" where
  "getUploadedFile p = (if \<not> fileInput_hidden p then uploadedFile p else None)"

record summarization_options =
  modelType :: string
  ratio :: jsnum
  language :: string

definition getSummarizationOptions :: "page \<Rightarrow> summarization_options" where
  "getSummarizationOptions p =
     \<lparr>modelType = select_value modelType_options (modelType_index p),
      ratio = js_div (parseInt (summaryRatio p)) 100,
      language = select_value language_options (language_index p)\<rparr>"

text \<open>Truthiness of a value that is a string or \<open>null\<close>: \<open>null\<close> and the empty string
  are falsy.\<close>

fun truthy :: "string option \<Rightarrow> bool" where
  "truthy None = False"
| "truthy (Some s) = (s \<noteq> [])"

text \<open>\<open>validateInput\<close> returns its verdict and the page, on which it may have raised an
  alert.\<close>

definition validateInput :: "page \<Rightarrow> bool \<times> page" where
  "validateInput p =
     (let txt = getInputText p; file = getUploadedFile p
      in if \<not> truthy txt \<and> file = None
         then (False, alert ''Please enter text or upload a file to summarize.'' p)
         else (True, p))"

definition showLoading :: "page \<Rightarrow> page" where
  "showLoading p = p\<lparr>loadingIndicator_hidden := False\<rparr>"

definition hideLoading :: "page \<Rightarrow> page" where
  "hideLoading p = p\<lparr>loadingIndicator_hidden := True\<rparr>"

definition displayResults :: "summary_result \<Rightarrow> page \<Rightarrow> page" where
  "displayResults result p =
     p\<lparr>summaryText := summary result,
       originalLength := string_of_nat (original_length result) @ '' words'',
       summaryLength := string_of_nat (summary_length result) @ '' words'',
       compressionRatio := toFixed (compression_ratio result * 100) 1 @ ''%'',
       processingTime := toFixed (processing_time result) 2 @ ''s'',
       resultsSection_hidden := False,
       resultsSection_fade_in := True\<rparr>"

definition showError :: "string \<Rightarrow> page \<Rightarrow> page" where
  "showError msg p = alert (''Error: '' @ msg) (hideLoading p)"

section \<open>App\<close>

text \<open>The \<open>if (text) ... else if (file) ...\<close> of \<open>handleSummarize\<close>: the request sent, if
  any, and what \<open>result\<close> holds afterwards, or the error thrown.\<close>

definition call_api ::
  "server \<Rightarrow> summarization_options \<Rightarrow> string option \<Rightarrow> js_file option
   \<Rightarrow> request list \<times> (js_error + summary_result option)" where
  "call_api srv opts txt file =
     (case (if truthy txt then txt else None) of
        Some t \<Rightarrow>
          (case summarizeText srv t (Some (modelType opts)) (Some (ratio opts))
                  (Some (language opts)) of
             (req, out) \<Rightarrow> ([req], map_sum id Some out))
      | None \<Rightarrow>
          (case file of
             Some f \<Rightarrow>
               (case summarizeFile srv f (Some (modelType opts)) (Some (ratio opts))
                       (Some (language opts)) of
                  (req, out) \<Rightarrow> ([req], map_sum id Some out))
           | None \<Rightarrow> ([], Inr None)))"

definition handleSummarize :: "server \<Rightarrow> page \<Rightarrow> page" where
  "handleSummarize srv p0 =
     (case validateInput p0 of
        (False, p1) \<Rightarrow> p1
      | (True, p1) \<Rightarrow>
          (let p2 = showLoading p1;
               opts = getSummarizationOptions p2;
               txt = getInputText p2;
               file = getUploadedFile p2
           in case call_api srv opts txt file of
                (reqs, out) \<Rightarrow>
                  (let p3 = p2\<lparr>fetched := fetched p2 @ reqs\<rparr>
                   in case out of
                        Inr result \<Rightarrow>
                          (let p4 = hideLoading p3
                           in case result of Some r \<Rightarrow> displayResults r p4 | None \<Rightarrow> p4)
                      | Inl err \<Rightarrow> showError (message err) (hideLoading p3))))"

text \<open>What the user can do on the page, and the handler each event runs. The server's
  answer to a click on the button comes with the click.\<close>

datatype ui_event =
    SwitchTab string
  | TypeText string
  | SelectFile js_file
  | RemoveFile
  | ChooseModel nat
  | MoveSlider string
  | ChooseLanguage nat
  | ClickSummarize server

fun ui_step :: "page \<Rightarrow> ui_event \<Rightarrow> page" where
  "ui_step p (SwitchTab tabId) = switchTab tabId p"
| "ui_step p (TypeText s) = p\<lparr>inputText := s\<rparr>"
| "ui_step p (SelectFile f) = handleFileSelection f p"
| "ui_step p RemoveFile = removeFile p"
| "ui_step p (ChooseModel i) = p\<lparr>modelType_index := i\<rparr>"
| "ui_step p (MoveSlider v) = p\<lparr>summaryRatio := v, ratioValue := v @ ''%''\<rparr>"
| "ui_step p (ChooseLanguage i) = p\<lparr>language_index := i\<rparr>"
| "ui_step p (ClickSummarize srv) = handleSummarize srv p"

definition run_events :: "page \<Rightarrow> ui_event list \<Rightarrow> page" where
  "run_events p es = foldl ui_step p es"

section \<open>ThemeSwitcher\<close>

text \<open>What the theme switcher reads and writes: the \<open>dark\<close> class of the \<open>html\<close> and of
  the \<open>body\<close> element, the inline background colour of \<open>html\<close>, and the entry of
  \<open>localStorage\<close> under \<open>document-summarizer-theme\<close>.\<close>

record theme_state =
  html_dark :: bool
  body_dark :: bool
  html_backgroundColor :: string
  stored_theme :: "string option"

definition applyTheme :: "string \<Rightarrow> theme_state \<Rightarrow> theme_state" where
  "applyTheme theme s =
     (if theme = ''dark''
      then s\<lparr>html_dark := True, body_dark := True, html_backgroundColor := ''#1a202c''\<rparr>
      else s\<lparr>html_dark := False, body_dark := False, html_backgroundColor := []\<rparr>)"

definition toggleTheme :: "theme_state \<Rightarrow> theme_state" where
  "toggleTheme s =
     (let isDark = html_dark s;
          s1 = applyTheme (if isDark then ''light'' else ''dark'') s;
          currentTheme = (if html_dark s1 then ''dark'' else ''light'')
      in s1\<lparr>stored_theme := Some currentTheme\<rparr>)"

text \<open>\<open>loadThemePreference\<close>, which \<open>init\<close> runs before it installs the click listener;
  \<open>prefersDark\<close> is what the media query \<open>(prefers-color-scheme: dark)\<close> answers.\<close>

definition loadThemePreference :: "bool \<Rightarrow> theme_state \<Rightarrow> theme_state" where
  "loadThemePreference prefersDark s =
     (case (if truthy (stored_theme s) then stored_theme s else None) of
        Some savedTheme \<Rightarrow> applyTheme savedTheme s
      | None \<Rightarrow> applyTheme (if prefersDark then ''dark'' else ''light'') s)"

text \<open>The listener for changes of the system theme.\<close>

definition systemThemeChanged :: "bool \<Rightarrow> theme_state \<Rightarrow> theme_state" where
  "systemThemeChanged matches s =
     (if \<not> truthy (stored_theme s) then applyTheme (if matches then ''dark'' else ''light'') s
      else s)"

datatype theme_event = ToggleClicked | SystemThemeChange bool

fun theme_step :: "theme_state \<Rightarrow> theme_event \<Rightarrow> theme_state" where
  "theme_step s ToggleClicked = toggleTheme s"
| "theme_step s (SystemThemeChange matches) = systemThemeChanged matches s"

text \<open>The states the switcher is in when a click can reach \<open>toggleTheme\<close>: \<open>init\<close> has
  run on whatever the page held before, and any events have followed.\<close>

definition theme_after :: "theme_state \<Rightarrow> bool \<Rightarrow> theme_event list \<Rightarrow> theme_state" where
  "theme_after s0 prefersDark es = foldl theme_step (loadThemePreference prefersDark s0) es"

definition theme_classes :: "theme_state \<Rightarrow> bool \<times> bool" where
  "theme_classes s = (html_dark s, body_dark s)"

section \<open>Sentence selection\<close>

text \<open>Modelled from the spec: the ratio bound of section 3 ("ratio is clamped to a configured
  bound (observed UI bound [0.10, 0.50]) before sentence-count computation"). The backend
  that does it is not among the sources.\<close>

definition clamp_ratio :: "rat \<Rightarrow> rat" where
  "clamp_ratio r = max (1 / 10) (min (1 / 2) r)"

text \<open>Modelled from the spec: the target count of section 4.7, "k = max(1, round(ratio * n))
  where n is the total sentence count and ratio is the clamped request ratio. Special case:
  if n == 1, the single sentence is always returned regardless of ratio, and k is forced to
  1". The backend's selector is not among the sources. \<open>round\<close> is rounding to the nearest
  integer.\<close>

definition target_count :: "rat \<Rightarrow> nat \<Rightarrow> nat" where
  "target_count r n = (if n = 1 then 1 else nat (max 1 (round (clamp_ratio r * of_nat n))))"

text \<open>Modelled from the spec: the RankedList of section 3, "sentence indices sorted by fused
  score descending, ties broken by ascending original index". The argument holds the fused
  score of each sentence, by index; the sort is stable.\<close>

definition ranked_list :: "rat list \<Rightarrow> nat list" where
  "ranked_list scores = sort_key (\<lambda>i. - (scores ! i)) [0..<length scores]"

text \<open>Modelled from the spec: the selection of section 4.7, which "takes the top-k sentences
  from the fused RankedList, then reorders the chosen indices ascending". The result is the
  list of the selected sentences' indices.\<close>

definition select_sentences :: "rat \<Rightarrow> rat list \<Rightarrow> nat list" where
  "select_sentences r scores = sort (take (target_count r (length scores)) (ranked_list scores))"

section \<open>Notions used in the statements\<close>

text \<open>The request \<open>handleSummarize\<close> builds from the page for a text input, and for a file.\<close>

definition text_request :: "page \<Rightarrow> request" where
  "text_request p =
     summarizeText_request (trim (inputText p))
       (Some (modelType (getSummarizationOptions p)))
       (Some (ratio (getSummarizationOptions p)))
       (Some (language (getSummarizationOptions p)))"

definition file_request :: "js_file \<Rightarrow> page \<Rightarrow> request" where
  "file_request f p =
     summarizeFile_request f
       (Some (modelType (getSummarizationOptions p)))
       (Some (ratio (getSummarizationOptions p)))
       (Some (language (getSummarizationOptions p)))"

text \<open>The two checks of \<open>handleFileSelection\<close> on a file.\<close>

definition passes_checks :: "js_file \<Rightarrow> bool" where
  "passes_checks f = (fsize f \<le> maxSize \<and> toLowerCase (fileExt (name f)) \<in> set validTypes)"

text \<open>The invariant of the page: the stored file, and every file ever sent, passed both
  checks.\<close>

definition page_ok :: "page \<Rightarrow> bool" where
  "page_ok p =
     ((\<forall>f. uploadedFile p = Some f \<longrightarrow> passes_checks f) \<and>
      (\<forall>req \<in> set (fetched p). \<forall>f. form_file req = Some f \<longrightarrow> passes_checks f))"

text \<open>A selection is accepted when \<open>handleFileSelection\<close> reaches its last three lines: the
  file is stored and shown, and no alert is raised.\<close>

definition accepted :: "js_file \<Rightarrow> page \<Rightarrow> bool" where
  "accepted f p =
     (handleFileSelection f p =
        p\<lparr>uploadedFile := Some f, fileName := name f, fileInfo_hidden := False\<rparr>)"

text \<open>Sample inputs: the page after the user typed a text, a result record, a server that
  answers every request with it, one that fails, and three files.\<close>

definition typed_page :: page where
  "typed_page = ui_step initial_page (TypeText ''  Cats sleep. Dogs bark. '')"

definition sample_result :: summary_result where
  "sample_result =
     \<lparr>summary = ''Cats sleep.'', original_length = 4, summary_length = 2,
      compression_ratio = 1 / 2, processing_time = 3 / 100\<rparr>"

definition sample_server :: server where
  "sample_server = (\<lambda>req. Response 200 (Inr sample_result))"

definition failing_server :: server where
  "failing_server = (\<lambda>req. Response 500 (Inl ''Unexpected token''))"

definition report_pdf :: js_file where
  "report_pdf = \<lparr>name = ''Report.v2.PDF'', fsize = 2048\<rparr>"

definition huge_txt :: js_file where
  "huge_txt = \<lparr>name = ''notes.txt'', fsize = 10485761\<rparr>"

definition notes_gz :: js_file where
  "notes_gz = \<lparr>name = ''notes.txt.gz'', fsize = 2048\<rparr>"

section \<open>Facts about the built-ins\<close>

lemma of_char_digit_char: "d < 10 \<Longrightarrow> of_char (digit_char d) = (48 + d :: nat)"
  by (simp add: digit_char_def)

lemma digit_char_facts:
  assumes "d < 10"
  shows "is_digit (digit_char d)" and "digit_value (digit_char d) = d"
  using assms by (simp_all add: is_digit_def digit_value_def of_char_digit_char)

lemma string_of_nat_not_Nil: "string_of_nat n \<noteq> []"
  by (subst string_of_nat.simps) simp

lemma string_of_nat_digits: "c \<in> set (string_of_nat n) \<Longrightarrow> is_digit c"
proof (induction n arbitrary: c rule: string_of_nat.induct)
  case (1 n)
  show ?case
  proof (cases "n < 10")
    case True
    with "1.prems" show ?thesis
      by (subst (asm) string_of_nat.simps) (simp add: digit_char_facts)
  next
    case False
    with "1.prems" "1.IH" show ?thesis
      by (subst (asm) string_of_nat.simps) (auto simp: digit_char_facts)
  qed
qed

lemma digits_value_snoc: "digits_value r (z @ [c]) = digits_value r z * r + digit_value c"
  by (simp add: digits_value_def)

lemma digits_value_string_of_nat: "digits_value 10 (string_of_nat n) = n"
proof (induction n rule: string_of_nat.induct)
  case (1 n)
  show ?case
  proof (cases "n < 10")
    case True
    then show ?thesis
      by (subst string_of_nat.simps) (simp add: digits_value_def digit_char_facts)
  next
    case False
    with "1.IH" show ?thesis
      by (subst string_of_nat.simps) (simp add: digits_value_snoc digit_char_facts)
  qed
qed

lemma not_digit:
  "\<not> is_digit CHR ''x''" "\<not> is_digit CHR ''X''" "\<not> is_digit CHR ''-''" "\<not> is_digit CHR ''+''"
  by (simp_all add: is_digit_def)

lemma digit_not_white: "is_digit c \<Longrightarrow> \<not> is_white_space c"
  by (auto simp: is_digit_def is_white_space_def)

text \<open>\<open>parseInt\<close> reads back the decimal digits of every non-negative integer.\<close>

lemma parseInt_string_of_nat: "parseInt (string_of_nat n) = Num (of_nat n)"
proof -
  define s where "s = string_of_nat n"
  have all: "\<And>c. c \<in> set s \<Longrightarrow> is_digit c"
    unfolding s_def by (rule string_of_nat_digits)
  obtain c cs where s: "s = c # cs"
    using string_of_nat_not_Nil [of n] by (cases s) (auto simp: s_def)
  have c: "is_digit c" using all s by simp
  have ws: "dropWhile is_white_space s = s"
    using c s by (simp add: digit_not_white)
  have "c \<noteq> CHR ''-''" "c \<noteq> CHR ''+''"
    using c not_digit by auto
  then have sign: "(case s of [] \<Rightarrow> (1::rat, s)
                   | c # cs \<Rightarrow> if c = CHR ''-'' then (- 1, cs)
                               else if c = CHR ''+'' then (1, cs) else (1, s)) = (1, s)"
    by (simp add: s)
  have "\<And>d. d \<in> set (take 2 s) \<Longrightarrow> is_digit d"
    using all by (auto dest: in_set_takeD)
  then have nohex: "take 2 s \<noteq> ''0x''" "take 2 s \<noteq> ''0X''"
    using not_digit by fastforce+
  have tw: "takeWhile is_digit s = s"
    using all by (simp add: takeWhile_eq_all_conv)
  have "s \<noteq> []" by (simp add: s)
  then have "parseInt s = Num (of_nat (digits_value 10 s))"
    unfolding parseInt_def Let_def ws sign by (simp add: nohex tw)
  then show ?thesis
    by (simp add: s_def digits_value_string_of_nat)
qed

section \<open>What a click on the button does\<close>

lemma getInputText_showLoading [simp]: "getInputText (showLoading p) = getInputText p"
  by (simp add: getInputText_def showLoading_def)

lemma getUploadedFile_showLoading [simp]: "getUploadedFile (showLoading p) = getUploadedFile p"
  by (simp add: getUploadedFile_def showLoading_def)

lemma getSummarizationOptions_showLoading [simp]:
  "getSummarizationOptions (showLoading p) = getSummarizationOptions p"
  by (simp add: getSummarizationOptions_def showLoading_def)

lemma fetched_showLoading [simp]: "fetched (showLoading p) = fetched p"
  by (simp add: showLoading_def)

text \<open>The three ways through \<open>handleSummarize\<close>: no input, a text, a file.\<close>

lemma handleSummarize_invalid:
  assumes "\<not> truthy (getInputText p)" "getUploadedFile p = None"
  shows "handleSummarize srv p = alert ''Please enter text or upload a file to summarize.'' p"
  using assms by (simp add: handleSummarize_def validateInput_def)

lemma handleSummarize_text:
  assumes "truthy (getInputText p)"
  shows "handleSummarize srv p =
    (case await_response srv (text_request p) of
       Inl err \<Rightarrow> showError (message err)
                   (hideLoading ((showLoading p)\<lparr>fetched := fetched p @ [text_request p]\<rparr>))
     | Inr r \<Rightarrow> displayResults r
                 (hideLoading ((showLoading p)\<lparr>fetched := fetched p @ [text_request p]\<rparr>)))"
proof -
  from assms have t: "getInputText p = Some (trim (inputText p))"
    by (auto simp: getInputText_def split: if_splits)
  show ?thesis using assms
    by (simp add: handleSummarize_def validateInput_def call_api_def summarizeText_def
        text_request_def t Let_def split: sum.splits)
qed

lemma handleSummarize_file:
  assumes "\<not> truthy (getInputText p)" "getUploadedFile p = Some f"
  shows "handleSummarize srv p =
    (case await_response srv (file_request f p) of
       Inl err \<Rightarrow> showError (message err)
                   (hideLoading ((showLoading p)\<lparr>fetched := fetched p @ [file_request f p]\<rparr>))
     | Inr r \<Rightarrow> displayResults r
                 (hideLoading ((showLoading p)\<lparr>fetched := fetched p @ [file_request f p]\<rparr>)))"
  using assms
  by (simp add: handleSummarize_def validateInput_def call_api_def summarizeFile_def
      file_request_def Let_def split: sum.splits)

lemma new_requests:
  assumes "req \<in> set (fetched (handleSummarize srv p)) - set (fetched p)"
  shows "(truthy (getInputText p) \<and> req = text_request p) \<or>
         (\<not> truthy (getInputText p) \<and> (\<exists>f. getUploadedFile p = Some f \<and> req = file_request f p))"
proof (cases "truthy (getInputText p)")
  case True
  with assms show ?thesis
    by (auto simp: handleSummarize_text showError_def hideLoading_def displayResults_def alert_def
        split: sum.splits)
next
  case False
  show ?thesis
  proof (cases "getUploadedFile p")
    case None
    with False assms show ?thesis
      by (simp add: handleSummarize_invalid alert_def)
  next
    case (Some f)
    with False assms show ?thesis
      by (auto simp: handleSummarize_file showError_def hideLoading_def displayResults_def alert_def
          split: sum.splits)
  qed
qed

lemma url_file_request: "url (file_request f p) \<noteq> baseUrl @ ''/summarize''"
  by (simp add: file_request_def summarizeFile_request_def)

lemma select_value_in_options: "i < length opts \<Longrightarrow> select_value opts i \<in> set opts"
  by (simp add: select_value_def)

section \<open>The request sent to /summarize\<close>

text \<open>
  C1. Whatever \<open>summarizeText\<close> is called with, its request goes to \<open>/summarize\<close> and
  carries exactly the fields \<open>text\<close>, \<open>model_type\<close>, \<open>ratio\<close> and \<open>language\<close>, in this
  order. When both \<open>select\<close> elements have one of their options selected, every request that
  a click on the button sends to \<open>/summarize\<close> is such a record, its \<open>model_type\<close> is one of
  ensemble, textrank, tfidf and its \<open>language\<close> one of english, spanish, french, german,
  italian.
\<close>

theorem summarize_request_shape:
  assumes "modelType_index p < length modelType_options"
    and "language_index p < length language_options"
  shows "url (fst (summarizeText srv txt mt r l)) = baseUrl @ ''/summarize'' \<and>
         field_names (fst (summarizeText srv txt mt r l)) =
           [''text'', ''model_type'', ''ratio'', ''language''] \<and>
         (\<forall>req \<in> set (fetched (handleSummarize srv p)) - set (fetched p).
            url req = baseUrl @ ''/summarize'' \<longrightarrow>
            (\<exists>t m x lang.
               body req = JsonBody [(''text'', Str t), (''model_type'', Str m),
                                    (''ratio'', Number x), (''language'', Str lang)] \<and>
               m \<in> {''ensemble'', ''textrank'', ''tfidf''} \<and>
               lang \<in> {''english'', ''spanish'', ''french'', ''german'', ''italian''}))"
proof -
  have m: "modelType (getSummarizationOptions p) \<in> {''ensemble'', ''textrank'', ''tfidf''}"
    using select_value_in_options [OF assms(1)]
    by (simp add: getSummarizationOptions_def modelType_options_def)
  have lang: "language (getSummarizationOptions p)
      \<in> {''english'', ''spanish'', ''french'', ''german'', ''italian''}"
    using select_value_in_options [OF assms(2)]
    by (simp add: getSummarizationOptions_def language_options_def)
  have "\<exists>t m x lang.
          body req = JsonBody [(''text'', Str t), (''model_type'', Str m),
                               (''ratio'', Number x), (''language'', Str lang)] \<and>
          m \<in> {''ensemble'', ''textrank'', ''tfidf''} \<and>
          lang \<in> {''english'', ''spanish'', ''french'', ''german'', ''italian''}"
    if "req \<in> set (fetched (handleSummarize srv p)) - set (fetched p)"
      and "url req = baseUrl @ ''/summarize''" for req
  proof -
    from new_requests [OF that(1)] that(2) have "req = text_request p"
      using url_file_request by auto
    then have "body req = JsonBody [(''text'', Str (trim (inputText p))),
        (''model_type'', Str (modelType (getSummarizationOptions p))),
        (''ratio'', Number (ratio (getSummarizationOptions p))),
        (''language'', Str (language (getSummarizationOptions p)))]"
      by (simp add: text_request_def summarizeText_request_def default_param_def)
    with m lang show ?thesis by blast
  qed
  moreover have "url (fst (summarizeText srv txt mt r l)) = baseUrl @ ''/summarize''"
    by (simp add: summarizeText_def summarizeText_request_def Let_def)
  moreover have "field_names (fst (summarizeText srv txt mt r l)) =
      [''text'', ''model_type'', ''ratio'', ''language'']"
    by (simp add: summarizeText_def summarizeText_request_def field_names_def Let_def)
  ultimately show ?thesis by blast
qed

theorem summarize_request_shape_witness:
  "modelType_index typed_page < length modelType_options \<and>
   language_index typed_page < length language_options \<and>
   fetched (handleSummarize sample_server typed_page) =
     [\<lparr>url = ''http://localhost:8000/summarize'', http_method = ''POST'',
       headers = [(''Content-Type'', ''application/json'')],
       body = JsonBody [(''text'', Str ''Cats sleep. Dogs bark.''),
                        (''model_type'', Str ''ensemble''),
                        (''ratio'', Number (Num (3 / 10))),
                        (''language'', Str ''english'')]\<rparr>]"
proof -
  have h1: "modelType_index typed_page < length modelType_options"
    by code_simp
  have h2: "language_index typed_page < length language_options"
    by code_simp
  have sent: "fetched (handleSummarize sample_server typed_page) =
     [\<lparr>url = ''http://localhost:8000/summarize'', http_method = ''POST'',
       headers = [(''Content-Type'', ''application/json'')],
       body = JsonBody [(''text'', Str ''Cats sleep. Dogs bark.''),
                        (''model_type'', Str ''ensemble''),
                        (''ratio'', Number (Num (3 / 10))),
                        (''language'', Str ''english'')]\<rparr>]"
    by code_simp
  from summarize_request_shape [OF h1 h2] h1 h2 sent show ?thesis
    by simp
qed

section \<open>The ratio sent\<close>

lemma field_ratio_text_request:
  "field ''ratio'' (text_request p) = Some (Number (ratio (getSummarizationOptions p)))"
  by (simp add: field_def text_request_def summarizeText_request_def default_param_def)

lemma field_ratio_file_request:
  "field ''ratio'' (file_request f p) = Some (Number (ratio (getSummarizationOptions p)))"
  by (simp add: field_def file_request_def summarizeFile_request_def default_param_def)

text \<open>
  C2. When the slider stands at an integer \<open>v\<close> between 10 and 50 (its value is then the
  decimal string of \<open>v\<close>), the ratio that \<open>getSummarizationOptions\<close> returns is \<open>v / 100\<close>,
  which lies between 0.10 and 0.50, and every request a click on the button sends, for a
  text or for a file, carries exactly this ratio.
\<close>

theorem slider_ratio_in_bounds:
  assumes "10 \<le> v" and "v \<le> 50" and "summaryRatio p = string_of_nat v"
  shows "ratio (getSummarizationOptions p) = Num (of_nat v / 100) \<and>
         (1 / 10 :: rat) \<le> of_nat v / 100 \<and> (of_nat v / 100 :: rat) \<le> 1 / 2 \<and>
         (\<forall>req \<in> set (fetched (handleSummarize srv p)) - set (fetched p).
            field ''ratio'' req = Some (Number (Num (of_nat v / 100))))"
proof -
  have r: "ratio (getSummarizationOptions p) = Num (of_nat v / 100)"
    by (simp add: getSummarizationOptions_def assms(3) parseInt_string_of_nat)
  have "field ''ratio'' req = Some (Number (Num (of_nat v / 100)))"
    if "req \<in> set (fetched (handleSummarize srv p)) - set (fetched p)" for req
    using new_requests [OF that] r
    by (auto simp: field_ratio_text_request field_ratio_file_request)
  moreover have "(1 / 10 :: rat) \<le> of_nat v / 100" "(of_nat v / 100 :: rat) \<le> 1 / 2"
    using assms(1,2) by simp_all
  ultimately show ?thesis using r by blast
qed

theorem slider_ratio_in_bounds_witness:
  "(10::nat) \<le> 30 \<and> (30::nat) \<le> 50 \<and> summaryRatio typed_page = string_of_nat 30 \<and>
   ratio (getSummarizationOptions typed_page) = Num (3 / 10) \<and>
   map (field ''ratio'') (fetched (handleSummarize sample_server typed_page)) =
     [Some (Number (Num (3 / 10)))]"
proof -
  have h: "summaryRatio typed_page = string_of_nat 30"
    by code_simp
  have sent: "map (field ''ratio'') (fetched (handleSummarize sample_server typed_page)) =
     [Some (Number (Num (3 / 10)))]"
    by code_simp
  from slider_ratio_in_bounds [of 30 typed_page sample_server, OF _ _ h] h sent
  show ?thesis by simp
qed

section \<open>Empty input\<close>

text \<open>\<open>trim\<close> leaves nothing exactly of the strings that are white space throughout.\<close>

lemma trim_empty_iff: "trim s = [] \<longleftrightarrow> (\<forall>c \<in> set s. is_white_space c)"
proof -
  have "(\<forall>c \<in> set (dropWhile is_white_space s). is_white_space c) \<longleftrightarrow>
        (\<forall>c \<in> set s. is_white_space c)"
  proof
    assume a: "\<forall>c \<in> set (dropWhile is_white_space s). is_white_space c"
    have "dropWhile is_white_space s = []"
    proof (rule ccontr)
      assume "dropWhile is_white_space s \<noteq> []"
      then have "\<not> is_white_space (hd (dropWhile is_white_space s))"
        by (rule hd_dropWhile)
      moreover have "hd (dropWhile is_white_space s) \<in> set (dropWhile is_white_space s)"
        using \<open>dropWhile is_white_space s \<noteq> []\<close> by simp
      ultimately show False using a by blast
    qed
    then show "\<forall>c \<in> set s. is_white_space c"
      by (simp add: dropWhile_eq_Nil_conv)
  next
    assume "\<forall>c \<in> set s. is_white_space c"
    then show "\<forall>c \<in> set (dropWhile is_white_space s). is_white_space c"
      by (auto dest: set_dropWhileD)
  qed
  then show ?thesis
    by (simp add: trim_def dropWhile_eq_Nil_conv)
qed

text \<open>
  C4. When the text area holds nothing but white space (or nothing at all) and no file is
  stored, \<open>validateInput\<close> fails, whichever tab is shown; \<open>handleSummarize\<close> then sends no
  request and only raises the alert that asks for input.
\<close>

theorem empty_input_rejected:
  assumes "\<forall>c \<in> set (inputText p). is_white_space c" and "uploadedFile p = None"
  shows "\<not> fst (validateInput p) \<and>
         fetched (handleSummarize srv p) = fetched p \<and>
         alerts (handleSummarize srv p) =
           alerts p @ [''Please enter text or upload a file to summarize.'']"
proof -
  from assms(1) have "trim (inputText p) = []"
    by (simp add: trim_empty_iff)
  then have t: "\<not> truthy (getInputText p)"
    by (simp add: getInputText_def)
  have f: "getUploadedFile p = None"
    using assms(2) by (simp add: getUploadedFile_def)
  from t f show ?thesis
    by (simp add: handleSummarize_invalid validateInput_def alert_def)
qed

theorem empty_input_rejected_witness:
  "list_all is_white_space
      (inputText (ui_step initial_page (TypeText [CHR '' '', CHR 0x09, CHR 0x0A]))) \<and>
   uploadedFile (ui_step initial_page (TypeText [CHR '' '', CHR 0x09, CHR 0x0A])) = None \<and>
   fetched (handleSummarize sample_server
      (ui_step initial_page (TypeText [CHR '' '', CHR 0x09, CHR 0x0A]))) = []"
proof -
  have h1: "\<forall>c \<in> set (inputText (ui_step initial_page (TypeText [CHR '' '', CHR 0x09, CHR 0x0A]))).
      is_white_space c"
    by code_simp
  have h2: "uploadedFile (ui_step initial_page (TypeText [CHR '' '', CHR 0x09, CHR 0x0A])) = None"
    by code_simp
  have h3: "fetched (ui_step initial_page (TypeText [CHR '' '', CHR 0x09, CHR 0x0A])) = []"
    by code_simp
  from empty_input_rejected [OF h1 h2, of sample_server] h1 h2 h3 show ?thesis
    by (simp add: list_all_iff)
qed

section \<open>Failed and successful requests\<close>

lemma valid_input_cases:
  assumes "fst (validateInput p)"
  obtains "truthy (getInputText p)"
  | f where "\<not> truthy (getInputText p)" "getUploadedFile p = Some f"
  using assms by (cases "getUploadedFile p") (auto simp: validateInput_def split: if_splits)

text \<open>
  C5. When the server answers with a status that is not ok, \<open>summarizeText\<close> and
  \<open>summarizeFile\<close> throw an \<open>Error\<close> whose message is \<open>API error:\<close> followed by the
  status. \<open>handleSummarize\<close>, on valid input, then shows this message in an alert, leaves
  the loading indicator hidden and the results section as it was, and has sent one request
  and no more.
\<close>

theorem failed_request_surfaced:
  assumes "\<not> response_ok status"
    and "\<And>req. \<exists>json. srv req = Response status json"
    and "fst (validateInput p)"
    and "p' = handleSummarize srv p"
  shows "snd (summarizeText srv txt mt r l) = Inl (Error (''API error: '' @ string_of_nat status)) \<and>
         snd (summarizeFile srv file mt r l) = Inl (Error (''API error: '' @ string_of_nat status)) \<and>
         alerts p' = alerts p @ [''Error: API error: '' @ string_of_nat status] \<and>
         loadingIndicator_hidden p' \<and>
         resultsSection_hidden p' = resultsSection_hidden p \<and>
         resultsSection_fade_in p' = resultsSection_fade_in p \<and>
         summaryText p' = summaryText p \<and>
         originalLength p' = originalLength p \<and>
         summaryLength p' = summaryLength p \<and>
         compressionRatio p' = compressionRatio p \<and>
         processingTime p' = processingTime p \<and>
         length (fetched p') = Suc (length (fetched p))"
proof -
  have a: "await_response srv req = Inl (Error (''API error: '' @ string_of_nat status))" for req
  proof -
    from assms(2) obtain json where "srv req = Response status json"
      by blast
    with assms(1) show ?thesis
      by (simp add: await_response_def)
  qed
  have api: "snd (summarizeText srv txt mt r l) = Inl (Error (''API error: '' @ string_of_nat status))"
    "snd (summarizeFile srv file mt r l) = Inl (Error (''API error: '' @ string_of_nat status))"
    by (simp_all add: summarizeText_def summarizeFile_def Let_def a)
  from assms(3) have "alerts p' = alerts p @ [''Error: API error: '' @ string_of_nat status] \<and>
         loadingIndicator_hidden p' \<and>
         resultsSection_hidden p' = resultsSection_hidden p \<and>
         resultsSection_fade_in p' = resultsSection_fade_in p \<and>
         summaryText p' = summaryText p \<and>
         originalLength p' = originalLength p \<and>
         summaryLength p' = summaryLength p \<and>
         compressionRatio p' = compressionRatio p \<and>
         processingTime p' = processingTime p \<and>
         length (fetched p') = Suc (length (fetched p))"
  proof (cases rule: valid_input_cases)
    case 1
    then show ?thesis
      by (simp add: assms(4) handleSummarize_text a showError_def hideLoading_def alert_def
          showLoading_def)
  next
    case (2 f)
    then show ?thesis
      by (simp add: assms(4) handleSummarize_file a showError_def hideLoading_def alert_def
          showLoading_def)
  qed
  with api show ?thesis by blast
qed

theorem failed_request_surfaced_witness:
  "\<not> response_ok 500 \<and> fst (validateInput typed_page) \<and>
   alerts (handleSummarize failing_server typed_page) = [''Error: API error: 500''] \<and>
   loadingIndicator_hidden (handleSummarize failing_server typed_page) \<and>
   resultsSection_hidden (handleSummarize failing_server typed_page) \<and>
   length (fetched (handleSummarize failing_server typed_page)) = 1"
proof -
  have h1: "\<not> response_ok 500"
    by code_simp
  have h2: "\<exists>json. failing_server req = Response 500 json" for req
    by (simp add: failing_server_def)
  have h3: "fst (validateInput typed_page)"
    by code_simp
  have e: "alerts typed_page = []" "fetched typed_page = []" "resultsSection_hidden typed_page"
    "string_of_nat 500 = ''500''"
    by code_simp+
  from failed_request_surfaced [OF h1 h2 h3 refl] h1 h3 e show ?thesis
    by simp
qed

text \<open>
  C8. The result of a successful request is a record of the five fields \<open>summary\<close>,
  \<open>original_length\<close>, \<open>summary_length\<close>, \<open>compression_ratio\<close> and \<open>processing_time\<close> (the
  type \<^typ>\<open>summary_result\<close>). On valid input and an ok answer, \<open>handleSummarize\<close> renders
  each of the five in its element of the results section, shows the section, hides the
  loading indicator and raises no alert.
\<close>

theorem result_fields_rendered:
  assumes "response_ok status"
    and "\<And>req. srv req = Response status (Inr result)"
    and "fst (validateInput p)"
    and "p' = handleSummarize srv p"
  shows "summaryText p' = summary result \<and>
         originalLength p' = string_of_nat (original_length result) @ '' words'' \<and>
         summaryLength p' = string_of_nat (summary_length result) @ '' words'' \<and>
         compressionRatio p' = toFixed (compression_ratio result * 100) 1 @ ''%'' \<and>
         processingTime p' = toFixed (processing_time result) 2 @ ''s'' \<and>
         \<not> resultsSection_hidden p' \<and> loadingIndicator_hidden p' \<and> alerts p' = alerts p"
proof -
  have a: "await_response srv req = Inr result" for req
    using assms(1,2) by (simp add: await_response_def)
  from assms(3) show ?thesis
  proof (cases rule: valid_input_cases)
    case 1
    then show ?thesis
      by (simp add: assms(4) handleSummarize_text a displayResults_def hideLoading_def
          showLoading_def)
  next
    case (2 f)
    then show ?thesis
      by (simp add: assms(4) handleSummarize_file a displayResults_def hideLoading_def
          showLoading_def)
  qed
qed

theorem result_fields_rendered_witness:
  "response_ok 200 \<and> fst (validateInput typed_page) \<and>
   summaryText (handleSummarize sample_server typed_page) = ''Cats sleep.'' \<and>
   originalLength (handleSummarize sample_server typed_page) = ''4 words'' \<and>
   summaryLength (handleSummarize sample_server typed_page) = ''2 words'' \<and>
   compressionRatio (handleSummarize sample_server typed_page) = ''50.0%'' \<and>
   processingTime (handleSummarize sample_server typed_page) = ''0.03s'' \<and>
   \<not> resultsSection_hidden (handleSummarize sample_server typed_page)"
proof -
  have h1: "response_ok 200"
    by code_simp
  have h2: "sample_server req = Response 200 (Inr sample_result)" for req
    by (simp add: sample_server_def)
  have h3: "fst (validateInput typed_page)"
    by code_simp
  have e: "summary sample_result = ''Cats sleep.''"
    "string_of_nat (original_length sample_result) @ '' words'' = ''4 words''"
    "string_of_nat (summary_length sample_result) @ '' words'' = ''2 words''"
    "toFixed (compression_ratio sample_result * 100) 1 @ ''%'' = ''50.0%''"
    "toFixed (processing_time sample_result) 2 @ ''s'' = ''0.03s''"
    by code_simp+
  from result_fields_rendered [OF h1 h2 h3 refl] h1 h3 e show ?thesis
    by simp
qed

section \<open>Default arguments\<close>

text \<open>
  C10. Called with the optional arguments left out, \<open>summarizeText\<close> and \<open>summarizeFile\<close>
  send \<open>model_type\<close> ensemble, \<open>ratio\<close> 0.3 and \<open>language\<close> english. Called with explicit
  arguments they send those. A field holds its default exactly when its argument is absent
  or is the default value itself.
\<close>

theorem default_arguments:
  "body (fst (summarizeText srv txt None None None)) =
     JsonBody [(''text'', Str txt), (''model_type'', Str ''ensemble''),
               (''ratio'', Number (Num (3 / 10))), (''language'', Str ''english'')] \<and>
   body (fst (summarizeFile srv file None None None)) =
     FormBody [(''file'', FileValue file), (''model_type'', Plain (Str ''ensemble'')),
               (''ratio'', Plain (Number (Num (3 / 10)))), (''language'', Plain (Str ''english''))] \<and>
   body (fst (summarizeText srv txt (Some m) (Some r) (Some l))) =
     JsonBody [(''text'', Str txt), (''model_type'', Str m),
               (''ratio'', Number r), (''language'', Str l)] \<and>
   body (fst (summarizeFile srv file (Some m) (Some r) (Some l))) =
     FormBody [(''file'', FileValue file), (''model_type'', Plain (Str m)),
               (''ratio'', Plain (Number r)), (''language'', Plain (Str l))] \<and>
   (field ''model_type'' (fst (summarizeText srv txt mt rt lg)) = Some (Str ''ensemble'')
      \<longleftrightarrow> mt = None \<or> mt = Some ''ensemble'') \<and>
   (field ''ratio'' (fst (summarizeText srv txt mt rt lg)) = Some (Number (Num (3 / 10)))
      \<longleftrightarrow> rt = None \<or> rt = Some (Num (3 / 10))) \<and>
   (field ''language'' (fst (summarizeText srv txt mt rt lg)) = Some (Str ''english'')
      \<longleftrightarrow> lg = None \<or> lg = Some ''english'') \<and>
   (field ''model_type'' (fst (summarizeFile srv file mt rt lg)) = Some (Str ''ensemble'')
      \<longleftrightarrow> mt = None \<or> mt = Some ''ensemble'') \<and>
   (field ''ratio'' (fst (summarizeFile srv file mt rt lg)) = Some (Number (Num (3 / 10)))
      \<longleftrightarrow> rt = None \<or> rt = Some (Num (3 / 10))) \<and>
   (field ''language'' (fst (summarizeFile srv file mt rt lg)) = Some (Str ''english'')
      \<longleftrightarrow> lg = None \<or> lg = Some ''english'')"
  by (cases mt; cases rt; cases lg)
    (simp_all add: summarizeText_def summarizeFile_def summarizeText_request_def
      summarizeFile_request_def default_param_def field_def Let_def)

section \<open>File selection\<close>

lemma form_file_text_request [simp]: "form_file (text_request p) = None"
  by (simp add: form_file_def text_request_def summarizeText_request_def)

lemma form_file_file_request [simp]: "form_file (file_request f p) = Some f"
  by (simp add: form_file_def file_request_def summarizeFile_request_def)

lemma uploadedFile_handleSummarize [simp]:
  "uploadedFile (handleSummarize srv p) = uploadedFile p"
proof (cases "truthy (getInputText p)")
  case True
  then show ?thesis
    by (simp add: handleSummarize_text showError_def hideLoading_def displayResults_def alert_def
        showLoading_def split: sum.splits)
next
  case False
  then show ?thesis
    by (cases "getUploadedFile p")
      (simp_all add: handleSummarize_invalid handleSummarize_file showError_def hideLoading_def
        displayResults_def alert_def showLoading_def split: sum.splits)
qed

lemma getUploadedFile_Some: "getUploadedFile p = Some f \<Longrightarrow> uploadedFile p = Some f"
  by (simp add: getUploadedFile_def split: if_splits)

lemma page_ok_handleSummarize:
  assumes "page_ok p"
  shows "page_ok (handleSummarize srv p)"
proof -
  have "passes_checks f"
    if "req \<in> set (fetched (handleSummarize srv p))" "form_file req = Some f" for req f
  proof (cases "req \<in> set (fetched p)")
    case True
    with assms that(2) show ?thesis by (auto simp: page_ok_def)
  next
    case False
    with that(1) have "req \<in> set (fetched (handleSummarize srv p)) - set (fetched p)" by simp
    from new_requests [OF this] that(2) obtain g
      where "getUploadedFile p = Some g" "req = file_request g p"
      by auto
    with that(2) assms show ?thesis
      by (auto simp: page_ok_def dest: getUploadedFile_Some)
  qed
  with assms show ?thesis
    by (auto simp: page_ok_def)
qed

lemma page_ok_handleFileSelection:
  assumes "page_ok p"
  shows "page_ok (handleFileSelection f p)"
  using assms
  by (auto simp: page_ok_def handleFileSelection_def alert_def passes_checks_def)

lemma page_ok_step: "page_ok p \<Longrightarrow> page_ok (ui_step p e)"
proof (cases e)
  case (ClickSummarize srv)
  assume "page_ok p"
  with ClickSummarize show ?thesis by (simp add: page_ok_handleSummarize)
next
  case (SelectFile f)
  assume "page_ok p"
  with SelectFile show ?thesis by (simp add: page_ok_handleFileSelection)
qed (auto simp: page_ok_def switchTab_def removeFile_def)

lemma page_ok_run: "page_ok p \<Longrightarrow> page_ok (run_events p es)"
  unfolding run_events_def
  by (induction es arbitrary: p) (simp_all add: page_ok_step)

lemma page_ok_initial: "page_ok initial_page"
  by (simp add: page_ok_def initial_page_def)

text \<open>
  C6. A selected file of more than 10 MB (\<open>10 * 1024 * 1024\<close> bytes) is rejected:
  \<open>handleFileSelection\<close> only raises the alert and leaves the stored file as it was. From
  the initial page, whatever the user does, such a file is never the stored file and no
  request ever carries it.
\<close>

theorem oversized_file_rejected:
  assumes "maxSize < fsize file"
  shows "handleFileSelection file p = alert ''File is too large. Maximum size is 10MB.'' p \<and>
         uploadedFile (handleFileSelection file p) = uploadedFile p \<and>
         uploadedFile (run_events initial_page es) \<noteq> Some file \<and>
         (\<forall>req \<in> set (fetched (run_events initial_page es)). form_file req \<noteq> Some file)"
proof -
  have "\<not> passes_checks file"
    using assms by (simp add: passes_checks_def)
  moreover have "page_ok (run_events initial_page es)"
    by (simp add: page_ok_run page_ok_initial)
  ultimately have "uploadedFile (run_events initial_page es) \<noteq> Some file"
    "\<forall>req \<in> set (fetched (run_events initial_page es)). form_file req \<noteq> Some file"
    by (auto simp: page_ok_def)
  moreover have "handleFileSelection file p = alert ''File is too large. Maximum size is 10MB.'' p"
    using assms by (simp add: handleFileSelection_def)
  ultimately show ?thesis
    by (simp add: alert_def)
qed

theorem oversized_file_rejected_witness:
  "maxSize < fsize huge_txt \<and>
   uploadedFile (handleFileSelection huge_txt initial_page) = None \<and>
   alerts (handleFileSelection huge_txt initial_page) =
     [''File is too large. Maximum size is 10MB.''] \<and>
   map form_file (fetched (run_events initial_page
      [SwitchTab ''file-input'', SelectFile huge_txt, ClickSummarize sample_server,
       SelectFile report_pdf, ClickSummarize sample_server])) = [Some report_pdf] \<and>
   report_pdf \<noteq> huge_txt"
proof -
  have h: "maxSize < fsize huge_txt"
    by (simp add: maxSize_def huge_txt_def)
  have e: "uploadedFile initial_page = None" "alerts initial_page = []" "fetched initial_page = []"
    by (simp_all add: initial_page_def)
  have s: "handleFileSelection huge_txt p = alert ''File is too large. Maximum size is 10MB.'' p"
    for p
    using oversized_file_rejected [OF h, of p] by simp
  have "toLowerCase (fileExt (name report_pdf)) = ''.pdf''"
    by code_simp
  moreover have "fsize report_pdf \<le> maxSize"
    by (simp add: report_pdf_def maxSize_def)
  ultimately have a: "handleFileSelection report_pdf p =
      p\<lparr>uploadedFile := Some report_pdf, fileName := name report_pdf, fileInfo_hidden := False\<rparr>"
    for p
    by (simp add: handleFileSelection_def validTypes_def)
  define p1 where "p1 = alert ''Please enter text or upload a file to summarize.''
       (alert ''File is too large. Maximum size is 10MB.'' (switchTab ''file-input'' initial_page))"
  have r1: "run_events initial_page
      [SwitchTab ''file-input'', SelectFile huge_txt, ClickSummarize sample_server] = p1"
    by (simp add: run_events_def s handleSummarize_invalid getInputText_def getUploadedFile_def
        switchTab_def alert_def e p1_def)
  define p2 where "p2 = handleFileSelection report_pdf p1"
  have p2: "\<not> truthy (getInputText p2)" "getUploadedFile p2 = Some report_pdf" "fetched p2 = []"
    by (simp_all add: p2_def a p1_def getInputText_def getUploadedFile_def switchTab_def alert_def e)
  have "fetched (handleSummarize sample_server p2) = [file_request report_pdf p2]"
    using p2 by (simp add: handleSummarize_file sample_server_def await_response_def
        response_ok_def displayResults_def hideLoading_def)
  then have "map form_file (fetched (handleSummarize sample_server p2)) = [Some report_pdf]"
    by simp
  moreover have "run_events initial_page
      [SwitchTab ''file-input'', SelectFile huge_txt, ClickSummarize sample_server,
       SelectFile report_pdf, ClickSummarize sample_server] = handleSummarize sample_server p2"
    using r1 by (simp add: run_events_def p2_def)
  moreover have "report_pdf \<noteq> huge_txt"
    by (simp add: report_pdf_def huge_txt_def)
  ultimately show ?thesis
    using h e s [of initial_page] by (simp add: alert_def)
qed

section \<open>The file type check\<close>

lemma lastIndexOf_absent: "c \<notin> set xs \<Longrightarrow> lastIndexOf xs c = - 1"
  by (induction xs) (auto simp: Let_def)

lemma lastIndexOf_last: "c \<notin> set ext \<Longrightarrow> lastIndexOf (base @ c # ext) c = int (length base)"
  by (induction base) (simp_all add: Let_def lastIndexOf_absent)

lemma fileExt_last_dot:
  "CHR ''.'' \<notin> set ext \<Longrightarrow> fileExt (base @ CHR ''.'' # ext) = CHR ''.'' # ext"
  by (simp add: fileExt_def substring_def lastIndexOf_last)

lemma fileExt_no_dot: "CHR ''.'' \<notin> set nm \<Longrightarrow> fileExt nm = nm"
  by (simp add: fileExt_def substring_def lastIndexOf_absent)

lemma split_last_dot:
  assumes "CHR ''.'' \<in> set nm"
  obtains base ext where "nm = base @ CHR ''.'' # ext" "CHR ''.'' \<notin> set ext"
  using assms split_list_last [of "CHR ''.''" nm] by blast

lemma lower_char_dot: "lower_char c = CHR ''.'' \<Longrightarrow> c = CHR ''.''"
proof -
  assume a: "lower_char c = CHR ''.''"
  show ?thesis
  proof (cases "(65 \<le> (of_char c :: nat) \<and> (of_char c :: nat) \<le> 90) \<or>
                (192 \<le> (of_char c :: nat) \<and> (of_char c :: nat) \<le> 222 \<and> (of_char c :: nat) \<noteq> 215)")
    case True
    with a have "char_of (of_char c + 32 :: nat) = CHR ''.''"
      by (simp add: lower_char_def Let_def)
    then have "of_char (char_of (of_char c + 32 :: nat)) = (of_char (CHR ''.'') :: nat)"
      by simp
    with True show ?thesis
      by (auto simp: of_char_of)
  next
    case False
    with a show ?thesis
      by (simp add: lower_char_def Let_def)
  qed
qed

lemma valid_type_starts_with_dot: "t \<in> set validTypes \<Longrightarrow> \<exists>rest. t = CHR ''.'' # rest"
  by (auto simp: validTypes_def)

lemma valid_extension_iff:
  "toLowerCase (fileExt nm) \<in> set validTypes \<longleftrightarrow>
   (\<exists>base ext. nm = base @ CHR ''.'' # ext \<and> CHR ''.'' \<notin> set ext \<and>
      toLowerCase (CHR ''.'' # ext) \<in> set validTypes)"
proof
  assume v: "toLowerCase (fileExt nm) \<in> set validTypes"
  have "CHR ''.'' \<in> set nm"
  proof (rule ccontr)
    assume "CHR ''.'' \<notin> set nm"
    then have "fileExt nm = nm" by (rule fileExt_no_dot)
    with v obtain rest where "toLowerCase nm = CHR ''.'' # rest"
      using valid_type_starts_with_dot by fastforce
    then obtain c cs where "nm = c # cs" "lower_char c = CHR ''.''"
      by (cases nm) (auto simp: toLowerCase_def)
    then have "CHR ''.'' \<in> set nm"
      using lower_char_dot by auto
    with \<open>CHR ''.'' \<notin> set nm\<close> show False by simp
  qed
  then obtain base ext where s: "nm = base @ CHR ''.'' # ext" "CHR ''.'' \<notin> set ext"
    by (rule split_last_dot)
  with v have "toLowerCase (CHR ''.'' # ext) \<in> set validTypes"
    by (simp add: fileExt_last_dot)
  with s show "\<exists>base ext. nm = base @ CHR ''.'' # ext \<and> CHR ''.'' \<notin> set ext \<and>
      toLowerCase (CHR ''.'' # ext) \<in> set validTypes"
    by blast
next
  assume "\<exists>base ext. nm = base @ CHR ''.'' # ext \<and> CHR ''.'' \<notin> set ext \<and>
      toLowerCase (CHR ''.'' # ext) \<in> set validTypes"
  then show "toLowerCase (fileExt nm) \<in> set validTypes"
    by (auto simp: fileExt_last_dot)
qed

lemma accepted_iff: "accepted f p \<longleftrightarrow> passes_checks f"
  by (auto simp: accepted_def handleFileSelection_def passes_checks_def alert_def
      dest!: arg_cong [where f = alerts])

text \<open>
  C7, as stated, fails for a file that is too large: the name \<open>notes.txt\<close> ends in
  \<open>.txt\<close>, yet a file of that name with \<open>10 * 1024 * 1024 + 1\<close> bytes is not accepted and
  not stored.
\<close>

theorem extension_check_fails_for_oversized:
  "toLowerCase (fileExt (name huge_txt)) = ''.txt'' \<and>
   \<not> accepted huge_txt initial_page \<and>
   uploadedFile (handleFileSelection huge_txt initial_page) = None"
proof -
  have "toLowerCase (fileExt (name huge_txt)) = ''.txt''"
    by (simp add: huge_txt_def fileExt_def substring_def toLowerCase_def lower_char_def Let_def)
  moreover have "maxSize < fsize huge_txt"
    by (simp add: maxSize_def huge_txt_def)
  then have "handleFileSelection huge_txt initial_page =
      alert ''File is too large. Maximum size is 10MB.'' initial_page"
    by (simp add: handleFileSelection_def)
  then have "\<not> accepted huge_txt initial_page"
    "uploadedFile (handleFileSelection huge_txt initial_page) = None"
    by (auto simp: accepted_def alert_def initial_page_def dest!: arg_cong [where f = alerts])
  ultimately show ?thesis by blast
qed

text \<open>
  C7, amended. A selected file of at most 10 MB is accepted if and only if its name has a
  final extension (the part from its last dot on) that, in lower case, is one of \<open>.txt\<close>,
  \<open>.pdf\<close>, \<open>.docx\<close>, \<open>.html\<close>, \<open>.md\<close>. A file that is not accepted only raises the
  alert about the file type, and the stored file stays as it was.
\<close>

theorem extension_check:
  assumes "fsize f \<le> maxSize"
  shows "(accepted f p \<longleftrightarrow>
            (\<exists>base ext. name f = base @ CHR ''.'' # ext \<and> CHR ''.'' \<notin> set ext \<and>
               toLowerCase (CHR ''.'' # ext) \<in> {''.txt'', ''.pdf'', ''.docx'', ''.html'', ''.md''})) \<and>
         (\<not> accepted f p \<longrightarrow>
            handleFileSelection f p =
              alert ''Invalid file type. Please upload a TXT, PDF, DOCX, HTML, or MD file.'' p \<and>
            uploadedFile (handleFileSelection f p) = uploadedFile p)"
proof -
  have "accepted f p \<longleftrightarrow> toLowerCase (fileExt (name f)) \<in> set validTypes"
    using assms by (simp add: accepted_iff passes_checks_def)
  moreover have "set validTypes = {''.txt'', ''.pdf'', ''.docx'', ''.html'', ''.md''}"
    by (simp add: validTypes_def)
  ultimately have 1: "accepted f p \<longleftrightarrow>
            (\<exists>base ext. name f = base @ CHR ''.'' # ext \<and> CHR ''.'' \<notin> set ext \<and>
               toLowerCase (CHR ''.'' # ext) \<in> {''.txt'', ''.pdf'', ''.docx'', ''.html'', ''.md''})"
    using valid_extension_iff [of "name f"] by simp
  have 2: "handleFileSelection f p =
              alert ''Invalid file type. Please upload a TXT, PDF, DOCX, HTML, or MD file.'' p \<and>
            uploadedFile (handleFileSelection f p) = uploadedFile p"
    if "\<not> accepted f p"
    using that assms
    by (simp add: accepted_iff passes_checks_def handleFileSelection_def alert_def)
  from 1 2 show ?thesis by blast
qed

theorem extension_check_witness:
  "fsize report_pdf \<le> maxSize \<and> accepted report_pdf initial_page \<and>
   uploadedFile (handleFileSelection report_pdf initial_page) = Some report_pdf \<and>
   fsize notes_gz \<le> maxSize \<and> \<not> accepted notes_gz initial_page \<and>
   uploadedFile (handleFileSelection notes_gz initial_page) = None"
proof -
  have h1: "fsize report_pdf \<le> maxSize"
    by (simp add: report_pdf_def maxSize_def)
  have h2: "fsize notes_gz \<le> maxSize"
    by (simp add: notes_gz_def maxSize_def)
  have "toLowerCase (CHR ''.'' # ''PDF'') = ''.pdf''"
    by code_simp
  then have "name report_pdf = ''Report.v2'' @ CHR ''.'' # ''PDF'' \<and> CHR ''.'' \<notin> set ''PDF'' \<and>
      toLowerCase (CHR ''.'' # ''PDF'') \<in> {''.txt'', ''.pdf'', ''.docx'', ''.html'', ''.md''}"
    by (simp add: report_pdf_def)
  then have a: "accepted report_pdf initial_page"
    using extension_check [OF h1, of initial_page] by blast
  then have s: "uploadedFile (handleFileSelection report_pdf initial_page) = Some report_pdf"
    by (simp add: accepted_def)
  have "\<not> (\<exists>base ext. name notes_gz = base @ CHR ''.'' # ext \<and> CHR ''.'' \<notin> set ext \<and>
      toLowerCase (CHR ''.'' # ext) \<in> {''.txt'', ''.pdf'', ''.docx'', ''.html'', ''.md''})"
  proof
    assume "\<exists>base ext. name notes_gz = base @ CHR ''.'' # ext \<and> CHR ''.'' \<notin> set ext \<and>
      toLowerCase (CHR ''.'' # ext) \<in> {''.txt'', ''.pdf'', ''.docx'', ''.html'', ''.md''}"
    then obtain base ext where b: "name notes_gz = base @ CHR ''.'' # ext"
      "CHR ''.'' \<notin> set ext"
      "toLowerCase (CHR ''.'' # ext) \<in> {''.txt'', ''.pdf'', ''.docx'', ''.html'', ''.md''}"
      by blast
    from b(1,2) have "fileExt (name notes_gz) = CHR ''.'' # ext"
      by (simp add: fileExt_last_dot)
    moreover have "fileExt (name notes_gz) = ''.gz''"
      by (simp add: notes_gz_def fileExt_def substring_def Let_def)
    ultimately have "CHR ''.'' # ext = ''.gz''" by simp
    moreover have "toLowerCase ''.gz'' = ''.gz''"
      by code_simp
    ultimately show False
      using b(3) by simp
  qed
  then have r: "\<not> accepted notes_gz initial_page"
    using extension_check [OF h2, of initial_page] by blast
  then have "uploadedFile (handleFileSelection notes_gz initial_page) = uploadedFile initial_page"
    using extension_check [OF h2, of initial_page] by blast
  then have n: "uploadedFile (handleFileSelection notes_gz initial_page) = None"
    by (simp add: initial_page_def)
  from h1 h2 a s r n show ?thesis by blast
qed

section \<open>Theme switching\<close>

lemma applyTheme_agree: "body_dark (applyTheme t s) = html_dark (applyTheme t s)"
  by (simp add: applyTheme_def)

lemma toggleTheme_agree: "body_dark (toggleTheme s) = html_dark (toggleTheme s)"
  by (simp add: toggleTheme_def applyTheme_def Let_def)

lemma theme_step_agree:
  "body_dark s = html_dark s \<Longrightarrow> body_dark (theme_step s e) = html_dark (theme_step s e)"
  by (cases e) (simp_all add: toggleTheme_agree systemThemeChanged_def applyTheme_agree)

lemma foldl_theme_step_agree:
  "body_dark s = html_dark s \<Longrightarrow>
   body_dark (foldl theme_step s es) = html_dark (foldl theme_step s es)"
  by (induction es arbitrary: s) (simp_all add: theme_step_agree)

lemma theme_after_agree:
  "body_dark (theme_after s0 prefersDark es) = html_dark (theme_after s0 prefersDark es)"
  unfolding theme_after_def
  by (rule foldl_theme_step_agree) (simp add: loadThemePreference_def applyTheme_agree split: option.splits)

lemma toggle_twice: "theme_classes (toggleTheme (toggleTheme s)) = (html_dark s, html_dark s)"
  by (simp add: theme_classes_def toggleTheme_def applyTheme_def Let_def)

text \<open>
  C9. In every state the switcher can be in when the toggle is clicked (after \<open>init\<close>, run
  on any earlier state with any system preference, and after any clicks and system theme
  changes), two calls of \<open>toggleTheme\<close> restore the \<open>dark\<close> classes of \<open>html\<close> and \<open>body\<close>.
  After a call of \<open>toggleTheme\<close> in any state at all, the preference saved in
  \<open>localStorage\<close> is the theme the document then carries, on \<open>html\<close> and on \<open>body\<close> alike,
  and this theme is the opposite of the one before.
\<close>

theorem toggle_involution:
  "theme_classes (toggleTheme (toggleTheme (theme_after s0 prefersDark es))) =
     theme_classes (theme_after s0 prefersDark es) \<and>
   stored_theme (toggleTheme s) = Some (if html_dark (toggleTheme s) then ''dark'' else ''light'') \<and>
   body_dark (toggleTheme s) = html_dark (toggleTheme s) \<and>
   html_dark (toggleTheme s) = (\<not> html_dark s)"
proof -
  have "theme_classes (toggleTheme (toggleTheme (theme_after s0 prefersDark es))) =
     theme_classes (theme_after s0 prefersDark es)"
    by (simp add: toggle_twice) (simp add: theme_classes_def theme_after_agree)
  moreover have "stored_theme (toggleTheme s) =
      Some (if html_dark (toggleTheme s) then ''dark'' else ''light'')"
    by (simp add: toggleTheme_def Let_def)
  moreover have "html_dark (toggleTheme s) = (\<not> html_dark s)"
    by (simp add: toggleTheme_def applyTheme_def Let_def)
  ultimately show ?thesis
    using toggleTheme_agree by blast
qed


section \<open>The number of selected sentences\<close>

lemma length_ranked_list: "length (ranked_list scores) = length scores"
  by (simp add: ranked_list_def)

lemma length_select_sentences:
  "length (select_sentences r scores) = min (target_count r (length scores)) (length scores)"
  by (simp add: select_sentences_def length_ranked_list)

lemma clamp_ratio_valid: "1 / 10 \<le> r \<Longrightarrow> r \<le> 1 / 2 \<Longrightarrow> clamp_ratio r = r"
  by (simp add: clamp_ratio_def)

lemma round_half_le:
  fixes r :: rat
  assumes "r \<le> 1 / 2" "1 \<le> n"
  shows "round (r * of_nat n) \<le> int n"
proof -
  have "of_int (round (r * of_nat n)) \<le> r * of_nat n + 1 / 2"
    by (rule of_int_round_le)
  also have "\<dots> \<le> 1 / 2 * of_nat n + 1 / 2"
  proof -
    have "r * of_nat n \<le> 1 / 2 * of_nat n"
      using assms(1) by (rule mult_right_mono) simp
    then show ?thesis by simp
  qed
  also have "\<dots> \<le> of_nat n"
    using assms(2) by simp
  finally have "(of_int (round (r * of_nat n)) :: rat) \<le> of_int (int n)"
    by simp
  then show ?thesis
    by (simp only: of_int_le_iff)
qed

lemma target_count_bounds:
  assumes "2 \<le> n" "1 / 10 \<le> r" "r \<le> 1 / 2"
  shows "target_count r n = nat (max 1 (round (r * of_nat n)))"
    and "1 \<le> target_count r n" and "target_count r n \<le> n"
proof -
  show eq: "target_count r n = nat (max 1 (round (r * of_nat n)))"
    using assms by (simp add: target_count_def clamp_ratio_valid)
  show "1 \<le> target_count r n"
    unfolding eq by simp
  have "round (r * of_nat n) \<le> int n"
    using assms by (intro round_half_le) simp_all
  then show "target_count r n \<le> n"
    unfolding eq using assms(1) by simp
qed

text \<open>
  C3. For a document of \<open>n \<ge> 2\<close> sentences and a ratio \<open>r\<close> within the bound \<open>[0.10, 0.50]\<close>,
  the selector returns \<open>k = max(1, round(r * n))\<close> sentences, and \<open>1 \<le> k \<le> n\<close>. For a
  document of one sentence it returns that sentence, whatever the ratio.
\<close>

theorem selected_count:
  "(length scores = 1 \<longrightarrow> select_sentences r scores = [0]) \<and>
   (2 \<le> length scores \<and> 1 / 10 \<le> r \<and> r \<le> 1 / 2 \<longrightarrow>
      length (select_sentences r scores) = nat (max 1 (round (r * of_nat (length scores)))) \<and>
      1 \<le> length (select_sentences r scores) \<and>
      length (select_sentences r scores) \<le> length scores)"
proof -
  have one: "select_sentences r scores = [0]" if "length scores = 1"
  proof -
    from that obtain s where "scores = [s]"
      by (cases scores) auto
    then show ?thesis
      by (simp add: select_sentences_def target_count_def ranked_list_def)
  qed
  have many: "length (select_sentences r scores) = nat (max 1 (round (r * of_nat (length scores)))) \<and>
      1 \<le> length (select_sentences r scores) \<and>
      length (select_sentences r scores) \<le> length scores"
    if "2 \<le> length scores" "1 / 10 \<le> r" "r \<le> 1 / 2"
    using target_count_bounds [OF that] by (simp add: length_select_sentences)
  from one many show ?thesis by blast
qed

theorem selected_count_witness:
  "length [7 / 10 :: rat] = 1 \<and>
   select_sentences 9 [7 / 10] = [0] \<and>
   2 \<le> length [5 / 10, 9 / 10, 1 / 10 :: rat] \<and>
   (1 / 10 :: rat) \<le> 34 / 100 \<and> (34 / 100 :: rat) \<le> 1 / 2 \<and>
   length (select_sentences (34 / 100) [5 / 10, 9 / 10, 1 / 10]) = 1 \<and>
   select_sentences (34 / 100) [5 / 10, 9 / 10, 1 / 10] = [1] \<and>
   select_sentences (1 / 2) [5 / 10, 9 / 10, 9 / 10, 1 / 10] = [1, 2]"
proof -
  have h1: "length [7 / 10 :: rat] = 1"
    by simp
  have h2: "2 \<le> length [5 / 10, 9 / 10, 1 / 10 :: rat] \<and> (1 / 10 :: rat) \<le> 34 / 100 \<and>
      (34 / 100 :: rat) \<le> 1 / 2"
    by simp
  have k: "nat (max 1 (round (34 / 100 * rat_of_nat (length [5 / 10, 9 / 10, 1 / 10 :: rat])))) = 1"
    by code_simp
  have e: "select_sentences (34 / 100) [5 / 10, 9 / 10, 1 / 10] = [1]"
    "select_sentences (1 / 2) [5 / 10, 9 / 10, 9 / 10, 1 / 10] = [1, 2]"
    by code_simp+
  have a: "select_sentences 9 [7 / 10] = [0]"
    using selected_count [of "[7 / 10]" 9] h1 by blast
  have b: "length (select_sentences (34 / 100) [5 / 10, 9 / 10, 1 / 10]) =
      nat (max 1 (round (34 / 100 * rat_of_nat (length [5 / 10, 9 / 10, 1 / 10 :: rat]))))"
    using selected_count [of "[5 / 10, 9 / 10, 1 / 10]" "34 / 100"] h2 by blast
  from h1 h2 a b k e show ?thesis
    by (simp only: simp_thms)
qed

end
